theory Spec2Isabelle
  imports Complex_Main
begin

section \<open>Python values used by \<open>eval/perf.py\<close>\<close>

text \<open>
  Wall-clock readings, timeouts and sleep lengths are Python floats; they are modelled as
  ideal real numbers (no rounding). Python integers are unbounded, hence \<open>int\<close>.
  Every exception the script can raise is a constructor of \<open>py_error\<close>, and a function
  that may raise returns \<open>py_error + 'a\<close> with \<open>Inl\<close> for the raised exception.
\<close>

datatype py_error =
    FileNotFoundError
  | ValueError
  | TimeoutError
  | CalledProcessError
  | TimeoutExpired
  | JSONDecodeError
  | TypeError
  | KeyError
  | OverflowError

text \<open>The value \<open>json.loads\<close> returns.\<close>

datatype json =
    JNull
  | JBool bool
  | JInt int
  | JFloat real
  | JStr string
  | JArr "json list"
  | JObj "(string \<times> json) list"

text \<open>\<open>int(x)\<close> on a float truncates towards zero.\<close>

definition py_trunc :: "real \<Rightarrow> int" where
  "py_trunc x = (if 0 \<le> x then \<lfloor>x\<rfloor> else \<lceil>x\<rceil>)"

text \<open>\<open>str(n)\<close> for an integer: decimal digits, with a minus sign when negative.\<close>

fun str_nat :: "nat \<Rightarrow> string" where
  "str_nat n =
     (if n < 10 then [''0123456789'' ! n]
      else str_nat (n div 10) @ [''0123456789'' ! (n mod 10)])"

declare str_nat.simps [simp del]

definition py_str :: "int \<Rightarrow> string" where
  "py_str i = (if i < 0 then CHR ''-'' # str_nat (nat (- i)) else str_nat (nat i))"

text \<open>The format specification \<open>{x:>4}\<close>: right-aligned in a field of width four.\<close>

definition rjust :: "nat \<Rightarrow> string \<Rightarrow> string" where
  "rjust w s = replicate (w - length s) CHR '' '' @ s"

text \<open>
  \<open>k in data\<close> and \<open>data[k]\<close> for a string key \<open>k\<close>. On a dict they test and read the
  key (a later binding of a repeated key wins), on a list and on a string \<open>in\<close> is
  membership and substring search while indexing by a string raises \<open>TypeError\<close>; on
  every other value both raise \<open>TypeError\<close>.
\<close>

definition py_substring :: "string \<Rightarrow> string \<Rightarrow> bool" where
  "py_substring k s = list_ex (\<lambda>i. take (length k) (drop i s) = k) [0 ..< Suc (length s)]"

fun py_contains :: "json \<Rightarrow> string \<Rightarrow> py_error + bool" where
  "py_contains (JObj kvs) k = Inr (k \<in> set (map fst kvs))"
| "py_contains (JArr xs) k = Inr (JStr k \<in> set xs)"
| "py_contains (JStr s) k = Inr (py_substring k s)"
| "py_contains _ k = Inl TypeError"

fun py_getitem :: "json \<Rightarrow> string \<Rightarrow> py_error + json" where
  "py_getitem (JObj kvs) k =
     (case map_of (rev kvs) k of None \<Rightarrow> Inl KeyError | Some v \<Rightarrow> Inr v)"
| "py_getitem _ k = Inl TypeError"

text \<open>
  \<open>int(v)\<close> on a decoded JSON value. Parsing a string is Python's own routine and is
  a parameter (\<open>None\<close> when it raises \<open>ValueError\<close>).
\<close>

fun py_int :: "(string \<Rightarrow> int option) \<Rightarrow> json \<Rightarrow> py_error + int" where
  "py_int p (JInt n) = Inr n"
| "py_int p (JBool b) = Inr (if b then 1 else 0)"
| "py_int p (JFloat x) = Inr (py_trunc x)"
| "py_int p (JStr s) = (case p s of None \<Rightarrow> Inl ValueError | Some n \<Rightarrow> Inr n)"
| "py_int p _ = Inl TypeError"


section \<open>The external world\<close>

text \<open>
  The script talks to three things outside itself: the clock, the console, and child
  processes (\<open>bin/client\<close>, \<open>make deploy_miner\<close>, \<open>make stop_miner\<close>). The \<open>world\<close> is
  the state the script changes; the \<open>env\<close> fixes how the outside answers: the outcome
  and duration of the k-th client call and of the k-th deploy, by how much the k-th
  sleep oversleeps, how much time passes between the two clock readings of the poller's
  round that makes the k-th client call (\<open>read_lag\<close>), and the longest sleep the
  platform's \<open>time.sleep\<close> accepts (\<open>sleep_max\<close>). Elsewhere the clock advances
  only inside a sleep or a child process.
\<close>

datatype proc_outcome = Completed string | NonZeroExit | TimedOut

datatype event =
    Deploy int int
  | StopMiner
  | RunCmd "string list" int real

record world =
  clock :: real
  trace :: "event list"
  console :: "string list"
  n_client :: nat
  n_deploy :: nat
  n_sleep :: nat

record env =
  client_exists :: bool
  client_run :: "nat \<Rightarrow> proc_outcome"
  client_cost :: "nat \<Rightarrow> real"
  deploy_ok :: "nat \<Rightarrow> bool"
  deploy_cost :: "nat \<Rightarrow> real"
  oversleep :: "nat \<Rightarrow> real"
  loads :: "string \<Rightarrow> json option"
  int_of_str :: "string \<Rightarrow> int option"
  isoformat :: "real \<Rightarrow> string"
  read_lag :: "nat \<Rightarrow> real"
  sleep_max :: real

text \<open>
  \<open>time.sleep(d)\<close>: the length is first converted to the platform's time type, which
  raises \<open>OverflowError\<close> when it is out of range on either side; a negative length then
  raises \<open>ValueError\<close>; otherwise the call sleeps at least \<open>d\<close>. The lengths of the model
  are real numbers: the floats \<open>inf\<close> and \<open>nan\<close>, which \<open>time.sleep\<close> also rejects, are
  not among them.
\<close>

definition sleep :: "env \<Rightarrow> world \<Rightarrow> real \<Rightarrow> (py_error + unit) \<times> world" where
  "sleep e w d =
     (if sleep_max e < \<bar>d\<bar> then (Inl OverflowError, w)
      else if d < 0 then (Inl ValueError, w)
      else (Inr (), w\<lparr>clock := clock w + d + oversleep e (n_sleep w),
                       n_sleep := Suc (n_sleep w)\<rparr>))"

text \<open>\<open>sys.stdout.write(s)\<close>.\<close>

definition write_stdout :: "world \<Rightarrow> string \<Rightarrow> world" where
  "write_stdout w s = w\<lparr>console := console w @ [s]\<rparr>"


section \<open>Running the client: \<open>run_cmd\<close> and \<open>client_chain_length\<close>\<close>

text \<open>The timeout \<open>run_cmd\<close> hands to \<open>subprocess.run\<close>: \<open>max(1, int(timeout_sec))\<close>.\<close>

definition run_cmd_timeout :: "real \<Rightarrow> int" where
  "run_cmd_timeout timeout_sec = max 1 (py_trunc timeout_sec)"

text \<open>
  \<open>run_cmd\<close> with \<open>check=True\<close>: a non-zero exit raises \<open>CalledProcessError\<close>, an
  expired timeout raises \<open>TimeoutExpired\<close>, otherwise the captured standard output is
  returned. The call is logged with the timeout applied and the clock at its start.
\<close>

definition run_cmd :: "env \<Rightarrow> world \<Rightarrow> string list \<Rightarrow> real \<Rightarrow> (py_error + string) \<times> world" where
  "run_cmd e w args timeout_sec =
     (let k = n_client w;
          w' = w\<lparr>clock := clock w + client_cost e k,
                 trace := trace w @ [RunCmd args (run_cmd_timeout timeout_sec) (clock w)],
                 n_client := Suc k\<rparr>
      in (case client_run e k of
            Completed out \<Rightarrow> (Inr out, w')
          | NonZeroExit \<Rightarrow> (Inl CalledProcessError, w')
          | TimedOut \<Rightarrow> (Inl TimeoutExpired, w')))"

text \<open>The body of the \<open>try\<close> block of \<open>client_chain_length\<close>, after \<open>run_cmd\<close> has returned.\<close>

definition decode_chain_length :: "env \<Rightarrow> string \<Rightarrow> py_error + int option" where
  "decode_chain_length e out =
     (case loads e out of
        None \<Rightarrow> Inl JSONDecodeError
      | Some data \<Rightarrow>
          (case py_contains data ''chain_length'' of
             Inl err \<Rightarrow> Inl err
           | Inr False \<Rightarrow> Inr None
           | Inr True \<Rightarrow>
               (case py_getitem data ''chain_length'' of
                  Inl err \<Rightarrow> Inl err
                | Inr v \<Rightarrow>
                    (case py_int (int_of_str e) v of
                       Inl err \<Rightarrow> Inl err
                     | Inr n \<Rightarrow> Inr (Some n)))))"

text \<open>
  \<open>client_chain_length\<close>: the check for the client binary is outside the \<open>try\<close>, so its
  \<open>FileNotFoundError\<close> propagates; every error raised inside the \<open>try\<close> is a subclass of
  \<open>Exception\<close> and is turned into \<open>None\<close> by the handler.
\<close>

definition client_chain_length ::
  "env \<Rightarrow> world \<Rightarrow> string \<Rightarrow> real \<Rightarrow> (py_error + int option) \<times> world" where
  "client_chain_length e w miner_addr timeout_sec =
     (if \<not> client_exists e then (Inl FileNotFoundError, w)
      else
        (case run_cmd e w [''bin/client'', ''blockchain'', ''-miner'', miner_addr] timeout_sec of
           (Inl err, w') \<Rightarrow> (Inr None, w')
         | (Inr out, w') \<Rightarrow>
             (case decode_chain_length e out of
                Inl err \<Rightarrow> (Inr None, w')
              | Inr v \<Rightarrow> (Inr v, w'))))"


section \<open>The deadline poller: \<open>wait_for_chain_length\<close>\<close>

definition per_call_timeout :: "real \<Rightarrow> real" where
  "per_call_timeout remaining = max 0.5 (min 2.0 remaining)"

text \<open>
  The \<open>while time.time() < deadline\<close> loop. The first argument bounds the number of
  iterations; \<open>None\<close> means the bound was reached before the loop ended. The loop test
  and the computation of \<open>remaining\<close> read the clock separately: \<open>wr\<close> is the world at
  the second reading.
\<close>

fun wait_loop ::
  "nat \<Rightarrow> env \<Rightarrow> world \<Rightarrow> real \<Rightarrow> string \<Rightarrow> real \<Rightarrow> ((py_error + int) \<times> world) option" where
  "wait_loop 0 e w deadline addr poll_interval_sec = None"
| "wait_loop (Suc fuel) e w deadline addr poll_interval_sec =
     (if clock w < deadline then
        (let wr = w\<lparr>clock := clock w + read_lag e (n_client w)\<rparr>;
             remaining = deadline - clock wr in
         case client_chain_length e wr addr (per_call_timeout remaining) of
           (Inl err, w1) \<Rightarrow> Some (Inl err, w1)
         | (Inr (Some cur), w1) \<Rightarrow> Some (Inr cur, w1)
         | (Inr None, w1) \<Rightarrow>
             (case sleep e w1 poll_interval_sec of
                (Inl err, w2) \<Rightarrow> Some (Inl err, w2)
              | (Inr u, w2) \<Rightarrow> wait_loop fuel e w2 deadline addr poll_interval_sec))
      else Some (Inl TimeoutError, w))"

definition wait_for_chain_length ::
  "nat \<Rightarrow> env \<Rightarrow> world \<Rightarrow> string \<Rightarrow> int \<Rightarrow> real \<Rightarrow> real \<Rightarrow> ((py_error + int) \<times> world) option" where
  "wait_for_chain_length fuel e w miner_ip port timeout_sec poll_interval_sec =
     (let deadline = clock w + timeout_sec;
          addr = miner_ip @ '':'' @ py_str port
      in wait_loop fuel e w deadline addr poll_interval_sec)"


section \<open>The experiment runner: \<open>run_experiment\<close>\<close>

record RunResult =
  count :: int
  difficulty :: int
  duration_sec :: int
  ips :: "string list"
  start_chain_length :: int
  end_chain_length :: int
  blocks_mined :: int
  deploy_elapsed_sec :: real
  started_at :: string
  ended_at :: string

text \<open>The slice \<open>xs[:n]\<close>; a negative \<open>n\<close> counts from the end.\<close>

definition py_slice_to :: "'a list \<Rightarrow> int \<Rightarrow> 'a list" where
  "py_slice_to xs n = (if 0 \<le> n then take (nat n) xs else take (length xs - nat (- n)) xs)"

definition pick_observer_ip :: "string list \<Rightarrow> py_error + string" where
  "pick_observer_ip xs = (case xs of [] \<Rightarrow> Inl ValueError | x # _ \<Rightarrow> Inr x)"

text \<open>\<open>make deploy_miner\<close> with \<open>check=True\<close>: a non-zero exit raises \<open>CalledProcessError\<close>.\<close>

definition make_deploy_miner :: "env \<Rightarrow> world \<Rightarrow> int \<Rightarrow> int \<Rightarrow> (py_error + unit) \<times> world" where
  "make_deploy_miner e w cnt diff =
     (let k = n_deploy w;
          w' = w\<lparr>clock := clock w + deploy_cost e k,
                 trace := trace w @ [Deploy cnt diff],
                 n_deploy := Suc k\<rparr>
      in if deploy_ok e k then (Inr (), w') else (Inl CalledProcessError, w'))"

text \<open>
  \<open>make stop_miner\<close> with \<open>check=False\<close>: the exit status is ignored. Its duration plays
  no part in the script and is left out.
\<close>

definition make_stop_miner :: "world \<Rightarrow> world" where
  "make_stop_miner w = w\<lparr>trace := trace w @ [StopMiner]\<rparr>"

text \<open>
  \<open>print_progress_line\<close>: the closure variable \<open>last_print_len\<close> is passed in and
  returned. The string written is a carriage return followed by the padded message.
\<close>

definition pad_line :: "nat \<Rightarrow> string \<Rightarrow> string" where
  "pad_line last_print_len msg =
     (if last_print_len > length msg
      then msg @ replicate (last_print_len - length msg) CHR '' ''
      else msg)"

definition print_progress_line :: "world \<Rightarrow> nat \<Rightarrow> string \<Rightarrow> world \<times> nat" where
  "print_progress_line w last_print_len msg =
     (let padded = pad_line last_print_len msg
      in (write_stdout w (CHR 0x0D # padded), length padded))"

definition first_progress_msg :: "int \<Rightarrow> string" where
  "first_progress_msg start_len = ''  t=   0s chain_length='' @ py_str start_len @ '' (+0)''"

definition progress_msg :: "int \<Rightarrow> int \<Rightarrow> int \<Rightarrow> string" where
  "progress_msg elapsed last_seen start_len =
     ''  t='' @ rjust 4 (py_str elapsed) @ ''s chain_length='' @ py_str last_seen
       @ '' (+'' @ py_str (last_seen - start_len) @ '')''"

text \<open>The \<open>while True\<close> loop of the measurement window, bounded like \<open>wait_loop\<close>.\<close>

fun progress_loop ::
  "nat \<Rightarrow> env \<Rightarrow> world \<Rightarrow> real \<Rightarrow> real \<Rightarrow> string \<Rightarrow> real \<Rightarrow> int \<Rightarrow> int \<Rightarrow> nat
     \<Rightarrow> ((py_error + unit) \<times> world) option" where
  "progress_loop 0 e w t0 deadline addr progress_s start_len last_seen last_print_len = None"
| "progress_loop (Suc fuel) e w t0 deadline addr progress_s start_len last_seen last_print_len =
     (let now = clock w; remaining = deadline - now in
      if remaining \<le> 0 then Some (Inr (), w)
      else
        (case sleep e w (min progress_s remaining) of
           (Inl err, w1) \<Rightarrow> Some (Inl err, w1)
         | (Inr u, w1) \<Rightarrow>
             (let elapsed = py_trunc (clock w1 - t0) in
              case client_chain_length e w1 addr 2.0 of
                (Inl err, w2) \<Rightarrow> Some (Inl err, w2)
              | (Inr cur, w2) \<Rightarrow>
                  (let last_seen' = (case cur of None \<Rightarrow> last_seen | Some c \<Rightarrow> c);
                       (w3, lpl) = print_progress_line w2 last_print_len
                                     (progress_msg elapsed last_seen' start_len)
                   in progress_loop fuel e w3 t0 deadline addr progress_s start_len
                        last_seen' lpl))))"

text \<open>The measurement window: with progress sampling, or one plain sleep.\<close>

definition hold_window ::
  "nat \<Rightarrow> env \<Rightarrow> world \<Rightarrow> string \<Rightarrow> real \<Rightarrow> int \<Rightarrow> int \<Rightarrow> ((py_error + unit) \<times> world) option" where
  "hold_window fuel e w addr progress_s dur start_len =
     (if progress_s \<noteq> 0 \<and> progress_s > 0 \<and> dur > 0 then
        (let t0 = clock w;
             deadline = t0 + real_of_int dur;
             (w1, lpl) = print_progress_line w 0 (first_progress_msg start_len)
         in case progress_loop fuel e w1 t0 deadline addr progress_s start_len start_len lpl of
              None \<Rightarrow> None
            | Some (Inl err, w2) \<Rightarrow> Some (Inl err, w2)
            | Some (Inr u, w2) \<Rightarrow> Some (Inr (), write_stdout w2 [CHR 0x0A]))
      else Some (sleep e w (real_of_int dur)))"

definition run_experiment ::
  "nat \<Rightarrow> env \<Rightarrow> world \<Rightarrow> string list \<Rightarrow> int \<Rightarrow> int \<Rightarrow> int \<Rightarrow> int \<Rightarrow> real \<Rightarrow> real \<Rightarrow> real \<Rightarrow> real
     \<Rightarrow> ((py_error + RunResult) \<times> world) option" where
  "run_experiment fuel e w all_ips cnt diff dur prt warmup_s ready_s poll_s progress_s =
     (if cnt > int (length all_ips) then Some (Inl ValueError, w)
      else
        (let used = py_slice_to all_ips cnt in
         case pick_observer_ip used of
           Inl err \<Rightarrow> Some (Inl err, w)
         | Inr observer_ip \<Rightarrow>
             (let started = isoformat e (clock w) @ ''Z'';
                  deploy_t0 = clock w
              in case make_deploy_miner e w cnt diff of
                   (Inl err, w1) \<Rightarrow> Some (Inl err, w1)
                 | (Inr u1, w1) \<Rightarrow>
                     (let deploy_elapsed = clock w1 - deploy_t0 in
                      case (if warmup_s > 0 then sleep e w1 warmup_s else (Inr (), w1)) of
                        (Inl err, w2) \<Rightarrow> Some (Inl err, w2)
                      | (Inr u2, w2) \<Rightarrow>
                          (case wait_for_chain_length fuel e w2 observer_ip prt ready_s poll_s of
                             None \<Rightarrow> None
                           | Some (Inl err, w3) \<Rightarrow> Some (Inl err, w3)
                           | Some (Inr start_len, w3) \<Rightarrow>
                               (case hold_window fuel e w3 (observer_ip @ '':'' @ py_str prt)
                                       progress_s dur start_len of
                                  None \<Rightarrow> None
                                | Some (Inl err, w4) \<Rightarrow> Some (Inl err, w4)
                                | Some (Inr u4, w4) \<Rightarrow>
                                    (case wait_for_chain_length fuel e w4 observer_ip prt
                                            ready_s poll_s of
                                       None \<Rightarrow> None
                                     | Some (Inl err, w5) \<Rightarrow> Some (Inl err, w5)
                                     | Some (Inr end_len, w5) \<Rightarrow>
                                         Some (Inr \<lparr>count = cnt,
                                                     difficulty = diff,
                                                     duration_sec = dur,
                                                     ips = used,
                                                     start_chain_length = start_len,
                                                     end_chain_length = end_len,
                                                     blocks_mined = end_len - start_len,
                                                     deploy_elapsed_sec = deploy_elapsed,
                                                     started_at = started,
                                                     ended_at = isoformat e (clock w5) @ ''Z''\<rparr>,
                                               w5))))))))"


section \<open>The sweep scheduler: the grid loops of \<open>main\<close>\<close>

record args =
  duration :: int
  port :: int
  warmup :: real
  ready_timeout :: real
  poll_interval :: real
  progress_interval :: real
  stop_between :: bool

text \<open>
  The inner \<open>for count in counts\<close> loop and the outer \<open>for diff in diffs\<close> loop; \<open>results\<close>
  is the list being appended to (\<open>ds\<close> stands for the list \<open>diffs\<close>). The two \<open>print\<close> summaries of each point are left out.
\<close>

fun run_counts ::
  "nat \<Rightarrow> env \<Rightarrow> world \<Rightarrow> string list \<Rightarrow> args \<Rightarrow> int \<Rightarrow> int list \<Rightarrow> RunResult list
     \<Rightarrow> ((py_error + RunResult list) \<times> world) option" where
  "run_counts fuel e w all_ips a diff [] results = Some (Inr results, w)"
| "run_counts fuel e w all_ips a diff (cnt # counts) results =
     (case run_experiment fuel e w all_ips cnt diff (duration a) (port a) (warmup a)
             (ready_timeout a) (poll_interval a) (progress_interval a) of
        None \<Rightarrow> None
      | Some (Inl err, w1) \<Rightarrow> Some (Inl err, w1)
      | Some (Inr res, w1) \<Rightarrow>
          run_counts fuel e (if stop_between a then make_stop_miner w1 else w1)
            all_ips a diff counts (results @ [res]))"

fun run_diffs ::
  "nat \<Rightarrow> env \<Rightarrow> world \<Rightarrow> string list \<Rightarrow> args \<Rightarrow> int list \<Rightarrow> int list \<Rightarrow> RunResult list
     \<Rightarrow> ((py_error + RunResult list) \<times> world) option" where
  "run_diffs fuel e w all_ips a [] counts results = Some (Inr results, w)"
| "run_diffs fuel e w all_ips a (diff # ds) counts results =
     (case run_counts fuel e w all_ips a diff counts results of
        None \<Rightarrow> None
      | Some (Inl err, w1) \<Rightarrow> Some (Inl err, w1)
      | Some (Inr results', w1) \<Rightarrow> run_diffs fuel e w1 all_ips a ds counts results')"

text \<open>
  The \<open>try\<close> \<open>finally\<close> statement of \<open>main\<close>: the \<open>finally\<close> clause runs on both exits, and
  an exception raised in the loops is raised again after it.
\<close>

definition sweep ::
  "nat \<Rightarrow> env \<Rightarrow> world \<Rightarrow> string list \<Rightarrow> args \<Rightarrow> int list \<Rightarrow> int list
     \<Rightarrow> ((py_error + RunResult list) \<times> world) option" where
  "sweep fuel e w all_ips a ds counts =
     (case run_diffs fuel e w all_ips a ds counts [] of
        None \<Rightarrow> None
      | Some (r, w1) \<Rightarrow> Some (r, make_stop_miner w1))"


section \<open>The chart renderer: \<open>plot_grouped_bars\<close>\<close>

text \<open>
  What is handed to the plotting library: for each count one list of bars, one bar per
  difficulty, each with its annotation (position and text).
\<close>

record bar =
  bar_x :: real
  bar_height :: int
  bar_width :: real
  text_x :: real
  text_y :: real
  text_s :: string

definition build_lookup :: "RunResult list \<Rightarrow> (int \<times> int \<Rightarrow> int option)" where
  "build_lookup results =
     fold (\<lambda>r m. m((difficulty r, count r) \<mapsto> blocks_mined r)) results Map.empty"

definition plot_grouped_bars :: "RunResult list \<Rightarrow> int list \<Rightarrow> int list \<Rightarrow> py_error + bar list list" where
  "plot_grouped_bars results counts difficulties =
     (let lookup = build_lookup results;
          x_positions = [0 ..< length difficulties];
          n_groups = length counts
      in if n_groups = 0 then Inl ValueError
         else
           (let total_width = 0.8;
                bw = total_width / real n_groups
            in Inr (map (\<lambda>(i, cnt).
                      (let offsets = map (\<lambda>x. real x - total_width / 2 + (real i + 0.5) * bw)
                                       x_positions;
                           ys = map (\<lambda>diff. case lookup (diff, cnt) of None \<Rightarrow> 0 | Some b \<Rightarrow> b)
                                  difficulties
                       in map (\<lambda>(off, y).
                                 \<lparr>bar_x = off - bw / 2,
                                  bar_height = y,
                                  bar_width = bw,
                                  text_x = (off - bw / 2) + bw / 2,
                                  text_y = (if y > 0 then real_of_int y else 0.8),
                                  text_s = py_str y\<rparr>)
                            (zip offsets ys)))
                    (enumerate 0 counts))))"


section \<open>Notions used to state the properties\<close>

text \<open>The timeout that reaches \<open>subprocess.run\<close> when the poller has \<open>remaining\<close> seconds left.\<close>

definition applied_timeout :: "real \<Rightarrow> int" where
  "applied_timeout remaining = run_cmd_timeout (per_call_timeout remaining)"

definition is_RunCmd :: "event \<Rightarrow> bool" where
  "is_RunCmd ev = (case ev of RunCmd args t s \<Rightarrow> True | _ \<Rightarrow> False)"

text \<open>
  What the counter oracle answers on the k-th client call when the client binary exists:
  the decoded counter, or \<open>None\<close> for every failure of the call or of the decoding.
\<close>

definition counter_oracle :: "env \<Rightarrow> nat \<Rightarrow> int option" where
  "counter_oracle e k =
     (case client_run e k of
        Completed out \<Rightarrow> (case decode_chain_length e out of Inl err \<Rightarrow> None | Inr v \<Rightarrow> v)
      | NonZeroExit \<Rightarrow> None
      | TimedOut \<Rightarrow> None)"

text \<open>
  The failures of a counter read: a non-zero exit or an expired timeout of the client, an
  output that is not JSON, a JSON value that is not an object, an object without the key
  \<open>chain_length\<close>, and a \<open>chain_length\<close> that \<open>int\<close> rejects.
\<close>

definition read_fails :: "env \<Rightarrow> nat \<Rightarrow> bool" where
  "read_fails e k =
     (case client_run e k of
        NonZeroExit \<Rightarrow> True
      | TimedOut \<Rightarrow> True
      | Completed out \<Rightarrow>
          (case loads e out of
             None \<Rightarrow> True
           | Some (JObj kvs) \<Rightarrow>
               (case map_of (rev kvs) ''chain_length'' of
                  None \<Rightarrow> True
                | Some v \<Rightarrow> (case py_int (int_of_str e) v of Inl err \<Rightarrow> True | Inr n \<Rightarrow> False))
           | Some other \<Rightarrow> True))"


text \<open>The key of a result in the grid.\<close>

definition grid_key :: "RunResult \<Rightarrow> int \<times> int" where
  "grid_key r = (difficulty r, count r)"

text \<open>
  The grid points that were deployed, in the order of the deploys, each as the pair of
  difficulty and count.
\<close>

fun deploy_keys :: "event list \<Rightarrow> (int \<times> int) list" where
  "deploy_keys [] = []"
| "deploy_keys (Deploy cnt diff # evs) = (diff, cnt) # deploy_keys evs"
| "deploy_keys (StopMiner # evs) = deploy_keys evs"
| "deploy_keys (RunCmd args t s # evs) = deploy_keys evs"


section \<open>Concrete environments\<close>

text \<open>
  A cluster whose client answers after a tenth of a second: chain length 7 on even calls
  and 5 on odd ones. A deploy takes three seconds, sleeps are exact, and no time passes
  between the two clock readings of a poller round.
\<close>

definition demo_loads :: "string \<Rightarrow> json option" where
  "demo_loads s =
     (if s = ''a'' then Some (JObj [(''chain_length'', JInt 7)])
      else if s = ''b'' then Some (JObj [(''chain_length'', JInt 5)])
      else None)"

definition demo_env :: env where
  "demo_env = \<lparr>client_exists = True,
               client_run = (\<lambda>k. Completed (if even k then ''a'' else ''b'')),
               client_cost = (\<lambda>k. 1 / 10),
               deploy_ok = (\<lambda>k. True),
               deploy_cost = (\<lambda>k. 3),
               oversleep = (\<lambda>k. 0),
               loads = demo_loads,
               int_of_str = (\<lambda>s. None),
               isoformat = (\<lambda>t. ''T''),
               read_lag = (\<lambda>k. 0),
               sleep_max = 9223372036\<rparr>"

text \<open>The same cluster with a deploy that fails the second time it is run.\<close>

definition faulty_env :: env where
  "faulty_env = demo_env\<lparr>deploy_ok := (\<lambda>k. k \<noteq> 1)\<rparr>"

text \<open>A cluster whose client always exits with a non-zero status.\<close>

definition down_env :: env where
  "down_env = demo_env\<lparr>client_run := (\<lambda>k. NonZeroExit)\<rparr>"

text \<open>A cluster that is unavailable on the first two client calls and then answers 7.\<close>

definition slow_env :: env where
  "slow_env = demo_env\<lparr>client_run := (\<lambda>k. if k < 2 then NonZeroExit else Completed ''a'')\<rparr>"

definition w0 :: world where
  "w0 = \<lparr>clock = 0, trace = [], console = [], n_client = 0, n_deploy = 0, n_sleep = 0\<rparr>"

definition demo_ips :: "string list" where
  "demo_ips = [''10.0.0.1'', ''10.0.0.2'', ''10.0.0.3'']"

definition demo_args :: args where
  "demo_args = \<lparr>duration = 0, port = 8001, warmup = 0, ready_timeout = 45, poll_interval = 1,
                 progress_interval = 10, stop_between = False\<rparr>"

definition client_args :: "string list" where
  "client_args = [''bin/client'', ''blockchain'', ''-miner'', ''10.0.0.1:8001'']"

text \<open>A result for the grid point with difficulty 3 and count 1.\<close>

definition demo_result :: RunResult where
  "demo_result = \<lparr>count = 1, difficulty = 3, duration_sec = 0, ips = [''10.0.0.1''],
                   start_chain_length = 7, end_chain_length = 12, blocks_mined = 5,
                   deploy_elapsed_sec = 3, started_at = ''TZ'', ended_at = ''TZ''\<rparr>"


section \<open>Evaluation and basic facts\<close>

lemmas model_defs =
  run_experiment_def py_slice_to_def pick_observer_ip_def make_deploy_miner_def make_stop_miner_def
  wait_for_chain_length_def client_chain_length_def run_cmd_def decode_chain_length_def
  run_cmd_timeout_def py_trunc_def per_call_timeout_def py_str_def str_nat.simps
  hold_window_def sleep_def sweep_def Let_def

lemmas demo_defs =
  demo_env_def faulty_env_def down_env_def slow_env_def w0_def demo_loads_def demo_ips_def
  demo_args_def client_args_def

lemma applied_timeout_cases: "applied_timeout r = (if 2 \<le> r then 2 else 1)"
  unfolding applied_timeout_def run_cmd_timeout_def per_call_timeout_def py_trunc_def
  by (auto simp: max_def min_def floor_eq_iff)

lemma applied_timeout_clamp:
  "real_of_int (applied_timeout r) = per_call_timeout r \<longleftrightarrow> 2 \<le> r \<or> r = 1"
  by (auto simp: applied_timeout_cases per_call_timeout_def max_def min_def)

lemma run_cmd_world:
  "run_cmd e w args t = (r, w') \<Longrightarrow>
     w' = w\<lparr>clock := clock w + client_cost e (n_client w),
            trace := trace w @ [RunCmd args (run_cmd_timeout t) (clock w)],
            n_client := Suc (n_client w)\<rparr>"
  by (auto simp: run_cmd_def Let_def split: proc_outcome.splits)

lemma client_chain_length_world:
  "client_chain_length e w addr t = (r, w') \<Longrightarrow>
     (\<not> client_exists e \<and> r = Inl FileNotFoundError \<and> w' = w) \<or>
     (client_exists e \<and> (\<exists>v. r = Inr v) \<and>
      w' = w\<lparr>clock := clock w + client_cost e (n_client w),
             trace := trace w @ [RunCmd [''bin/client'', ''blockchain'', ''-miner'', addr]
                                   (run_cmd_timeout t) (clock w)],
             n_client := Suc (n_client w)\<rparr>)"
  unfolding client_chain_length_def
  apply (auto split: if_splits prod.splits sum.splits dest: run_cmd_world)
  apply metis
  done

lemma client_chain_length_answer:
  "client_exists e \<Longrightarrow>
     client_chain_length e w addr t =
       (Inr (counter_oracle e (n_client w)),
        w\<lparr>clock := clock w + client_cost e (n_client w),
          trace := trace w @ [RunCmd [''bin/client'', ''blockchain'', ''-miner'', addr]
                                (run_cmd_timeout t) (clock w)],
          n_client := Suc (n_client w)\<rparr>)"
  by (simp add: client_chain_length_def run_cmd_def counter_oracle_def Let_def
      split: proc_outcome.splits sum.splits)

lemma sleep_world:
  "sleep e w d = (r, w') \<Longrightarrow>
     ((\<exists>err. r = Inl err) \<and> w' = w) \<or>
     (0 \<le> d \<and> d \<le> sleep_max e \<and> r = Inr () \<and>
      w' = w\<lparr>clock := clock w + d + oversleep e (n_sleep w), n_sleep := Suc (n_sleep w)\<rparr>)"
  by (auto simp: sleep_def split: if_splits)

lemma counter_oracle_read_fails: "read_fails e k \<Longrightarrow> counter_oracle e k = None"
  unfolding read_fails_def counter_oracle_def decode_chain_length_def
  by (auto split: proc_outcome.splits option.splits json.splits sum.splits bool.splits
      simp: map_of_eq_None_iff)


section \<open>The client calls a poller makes\<close>

text \<open>
  The interactions of a poller are client calls, one per round. The call of round \<open>i\<close> is
  logged with the clock \<open>s\<close> of the second reading of that round and is given the timeout
  computed from \<open>dl - s\<close>; the first reading of the round, \<open>s\<close> less the lag, was before
  the deadline.
\<close>

lemma wait_loop_trace:
  "wait_loop fuel e w dl addr p = Some (r, w') \<Longrightarrow>
     \<exists>evs. trace w' = trace w @ evs \<and> n_client w' = n_client w + length evs \<and>
       (\<forall>i<length evs. \<exists>args s. evs ! i = RunCmd args (applied_timeout (dl - s)) s
                                   \<and> s - read_lag e (n_client w + i) < dl)"
proof (induction fuel arbitrary: w)
  case 0
  then show ?case by simp
next
  case (Suc fuel)
  show ?case
  proof (cases "clock w < dl")
    case False
    with Suc.prems have "w' = w" by simp
    then have "trace w' = trace w @ [] \<and> n_client w' = n_client w + length [] \<and>
       (\<forall>i<length []. \<exists>args s. [] ! i = RunCmd args (applied_timeout (dl - s)) s
                                   \<and> s - read_lag e (n_client w + i) < dl)"
      by simp
    then show ?thesis by (rule exI[of _ "[]"])
  next
    case True
    let ?wr = "w\<lparr>clock := clock w + read_lag e (n_client w)\<rparr>"
    let ?ev = "RunCmd [''bin/client'', ''blockchain'', ''-miner'', addr]
                 (applied_timeout (dl - clock ?wr)) (clock ?wr)"
    obtain r1 w1 where c: "client_chain_length e ?wr addr (per_call_timeout (dl - clock ?wr)) = (r1, w1)"
      by (cases "client_chain_length e ?wr addr (per_call_timeout (dl - clock ?wr))")
    have first: "\<exists>args s. ?ev = RunCmd args (applied_timeout (dl - s)) s
                                   \<and> s - read_lag e (n_client w + 0) < dl"
      using True by simp
    have one: "\<exists>evs. trace w1 = trace w @ evs \<and> n_client w1 = n_client w + length evs \<and>
       (\<forall>i<length evs. \<exists>args s. evs ! i = RunCmd args (applied_timeout (dl - s)) s
                                   \<and> s - read_lag e (n_client w + i) < dl)"
      if ran: "trace w1 = trace w @ [?ev]" "n_client w1 = Suc (n_client w)"
    proof -
      have "\<forall>i<length [?ev]. \<exists>args s. [?ev] ! i = RunCmd args (applied_timeout (dl - s)) s
                                   \<and> s - read_lag e (n_client w + i) < dl"
      proof (intro allI impI)
        fix i assume "i < length [?ev]"
        then have "i = 0" by simp
        with first show "\<exists>args s. [?ev] ! i = RunCmd args (applied_timeout (dl - s)) s
                                   \<and> s - read_lag e (n_client w + i) < dl"
          by simp
      qed
      moreover from ran have "trace w1 = trace w @ [?ev]"
        and "n_client w1 = n_client w + length [?ev]" by simp_all
      ultimately
      have "trace w1 = trace w @ [?ev] \<and> n_client w1 = n_client w + length [?ev] \<and>
       (\<forall>i<length [?ev]. \<exists>args s. [?ev] ! i = RunCmd args (applied_timeout (dl - s)) s
                                   \<and> s - read_lag e (n_client w + i) < dl)"
        by (intro conjI)
      then show ?thesis by (rule exI[of _ "[?ev]"])
    qed
    from client_chain_length_world[OF c] show ?thesis
    proof
      assume "\<not> client_exists e \<and> r1 = Inl FileNotFoundError \<and> w1 = ?wr"
      then have r1: "r1 = Inl FileNotFoundError" and w1: "w1 = ?wr" by simp_all
      from Suc.prems True c r1 have "w' = w1" by (simp add: Let_def)
      with w1 have "trace w' = trace w @ [] \<and> n_client w' = n_client w + length [] \<and>
       (\<forall>i<length []. \<exists>args s. [] ! i = RunCmd args (applied_timeout (dl - s)) s
                                   \<and> s - read_lag e (n_client w + i) < dl)"
        by simp
      then show ?thesis by (rule exI[of _ "[]"])
    next
      assume "client_exists e \<and> (\<exists>v. r1 = Inr v) \<and>
        w1 = ?wr\<lparr>clock := clock ?wr + client_cost e (n_client ?wr),
               trace := trace ?wr @ [RunCmd [''bin/client'', ''blockchain'', ''-miner'', addr]
                                     (run_cmd_timeout (per_call_timeout (dl - clock ?wr)))
                                     (clock ?wr)],
               n_client := Suc (n_client ?wr)\<rparr>"
      then obtain v where r1: "r1 = Inr v"
        and t1: "trace w1 = trace w @ [?ev]" and n1: "n_client w1 = Suc (n_client w)"
        by (auto simp: applied_timeout_def)
      show ?thesis
      proof (cases v)
        case (Some cur)
        with Suc.prems True c r1 have "w' = w1" by (simp add: Let_def)
        with one[OF t1 n1] show ?thesis by simp
      next
        case None
        obtain r2 w2 where s: "sleep e w1 p = (r2, w2)" by (cases "sleep e w1 p")
        from sleep_world[OF s] have t2: "trace w2 = trace w1" and n2: "n_client w2 = n_client w1"
          by auto
        show ?thesis
        proof (cases r2)
          case (Inl err)
          with Suc.prems True c r1 None s have "w' = w2" by (simp add: Let_def)
          with one[OF t1 n1] t2 n2 show ?thesis by simp
        next
          case (Inr u)
          with Suc.prems True c r1 None s
          have "wait_loop fuel e w2 dl addr p = Some (r, w')" by (simp add: Let_def)
          from Suc.IH[OF this] obtain evs2 where
            t3: "trace w' = trace w2 @ evs2" and n3: "n_client w' = n_client w2 + length evs2"
            and e3: "\<forall>i<length evs2. \<exists>args s. evs2 ! i = RunCmd args (applied_timeout (dl - s)) s
                                   \<and> s - read_lag e (n_client w2 + i) < dl"
            by blast
          have a: "trace w' = trace w @ (?ev # evs2)" using t3 t2 t1 by simp
          have b: "n_client w' = n_client w + length (?ev # evs2)" using n3 n2 n1 by simp
          have d: "\<forall>i<length (?ev # evs2). \<exists>args s.
                     (?ev # evs2) ! i = RunCmd args (applied_timeout (dl - s)) s
                       \<and> s - read_lag e (n_client w + i) < dl"
          proof (intro allI impI)
            fix i assume i: "i < length (?ev # evs2)"
            show "\<exists>args s. (?ev # evs2) ! i = RunCmd args (applied_timeout (dl - s)) s
                       \<and> s - read_lag e (n_client w + i) < dl"
            proof (cases i)
              case 0
              with first show ?thesis by simp
            next
              case (Suc j)
              with i have "j < length evs2" by simp
              with e3 have "\<exists>args s. evs2 ! j = RunCmd args (applied_timeout (dl - s)) s
                                   \<and> s - read_lag e (n_client w2 + j) < dl"
                by blast
              with Suc n2 n1 show ?thesis by simp
            qed
          qed
          from a b d
          have "trace w' = trace w @ (?ev # evs2) \<and> n_client w' = n_client w + length (?ev # evs2)
              \<and> (\<forall>i<length (?ev # evs2). \<exists>args s.
                     (?ev # evs2) ! i = RunCmd args (applied_timeout (dl - s)) s
                       \<and> s - read_lag e (n_client w + i) < dl)"
            by (intro conjI)
          then show ?thesis by (rule exI[of _ "?ev # evs2"])
        qed
      qed
    qed
  qed
qed

lemma wait_loop_events:
  "wait_loop fuel e w dl addr p = Some (r, w') \<Longrightarrow>
     \<exists>evs. trace w' = trace w @ evs \<and>
       (\<forall>ev \<in> set evs. \<exists>args s. ev = RunCmd args (applied_timeout (dl - s)) s)"
proof -
  assume "wait_loop fuel e w dl addr p = Some (r, w')"
  from wait_loop_trace[OF this] obtain evs where
    t: "trace w' = trace w @ evs"
    and e: "\<forall>i<length evs. \<exists>args s. evs ! i = RunCmd args (applied_timeout (dl - s)) s
                                   \<and> s - read_lag e (n_client w + i) < dl"
    by blast
  have "\<forall>ev \<in> set evs. \<exists>args s. ev = RunCmd args (applied_timeout (dl - s)) s"
  proof
    fix ev assume "ev \<in> set evs"
    then obtain i where i: "i < length evs" and ev: "ev = evs ! i"
      by (auto simp: in_set_conv_nth)
    from e i obtain args s where "evs ! i = RunCmd args (applied_timeout (dl - s)) s" by blast
    then have "ev = RunCmd args (applied_timeout (dl - s)) s" by (simp add: ev)
    then show "\<exists>args s. ev = RunCmd args (applied_timeout (dl - s)) s" by blast
  qed
  with t have "trace w' = trace w @ evs \<and>
       (\<forall>ev \<in> set evs. \<exists>args s. ev = RunCmd args (applied_timeout (dl - s)) s)"
    by (intro conjI)
  then show ?thesis by (rule exI[of _ evs])
qed


section \<open>The cluster interactions of one run\<close>

lemma print_progress_line_trace:
  "print_progress_line w l msg = (w', l') \<Longrightarrow> trace w' = trace w"
  by (auto simp: print_progress_line_def write_stdout_def Let_def)

lemma sleep_trace: "sleep e w d = (r, w') \<Longrightarrow> trace w' = trace w"
  by (auto simp: sleep_def split: if_splits)

lemma client_chain_length_trace:
  "client_chain_length e w addr t = (r, w') \<Longrightarrow>
     \<exists>evs. trace w' = trace w @ evs \<and> (\<forall>ev \<in> set evs. is_RunCmd ev)"
proof -
  assume c: "client_chain_length e w addr t = (r, w')"
  from client_chain_length_world[OF c] show ?thesis
  proof
    assume "\<not> client_exists e \<and> r = Inl FileNotFoundError \<and> w' = w"
    then have "trace w' = trace w @ [] \<and> (\<forall>ev \<in> set []. is_RunCmd ev)" by simp
    then show ?thesis by blast
  next
    assume "client_exists e \<and> (\<exists>v. r = Inr v) \<and>
      w' = w\<lparr>clock := clock w + client_cost e (n_client w),
             trace := trace w @ [RunCmd [''bin/client'', ''blockchain'', ''-miner'', addr]
                                   (run_cmd_timeout t) (clock w)],
             n_client := Suc (n_client w)\<rparr>"
    then have "trace w' = trace w @ [RunCmd [''bin/client'', ''blockchain'', ''-miner'', addr]
                                   (run_cmd_timeout t) (clock w)]
        \<and> (\<forall>ev \<in> set [RunCmd [''bin/client'', ''blockchain'', ''-miner'', addr]
                                   (run_cmd_timeout t) (clock w)]. is_RunCmd ev)"
      by (simp add: is_RunCmd_def)
    then show ?thesis by blast
  qed
qed

lemma wait_for_chain_length_trace:
  "wait_for_chain_length fuel e w ip prt t p = Some (r, w') \<Longrightarrow>
     \<exists>evs. trace w' = trace w @ evs \<and> (\<forall>ev \<in> set evs. is_RunCmd ev)"
proof -
  assume "wait_for_chain_length fuel e w ip prt t p = Some (r, w')"
  then have "wait_loop fuel e w (clock w + t) (ip @ '':'' @ py_str prt) p = Some (r, w')"
    by (simp add: wait_for_chain_length_def Let_def)
  from wait_loop_events[OF this] obtain evs where
    tr: "trace w' = trace w @ evs" and
    ev: "\<forall>ev \<in> set evs. \<exists>args s.
           ev = RunCmd args (applied_timeout (clock w + t - s)) s"
    by blast
  from ev have "\<forall>ev \<in> set evs. is_RunCmd ev" by (auto simp: is_RunCmd_def)
  with tr show ?thesis by blast
qed

lemma progress_loop_trace:
  "progress_loop fuel e w t0 dl addr ps sl ls lpl = Some (r, w') \<Longrightarrow>
     \<exists>evs. trace w' = trace w @ evs \<and> (\<forall>ev \<in> set evs. is_RunCmd ev)"
proof (induction fuel arbitrary: w ls lpl)
  case 0
  then show ?case by simp
next
  case (Suc fuel)
  show ?case
  proof (cases "dl - clock w \<le> 0")
    case True
    with Suc.prems show ?thesis by (simp add: Let_def)
  next
    case False
    obtain r1 w1 where s: "sleep e w (min ps (dl - clock w)) = (r1, w1)"
      by (cases "sleep e w (min ps (dl - clock w))")
    from sleep_trace[OF s] have t1: "trace w1 = trace w" .
    show ?thesis
    proof (cases r1)
      case (Inl err)
      with Suc.prems False s t1 show ?thesis by (simp add: Let_def)
    next
      case r1: (Inr u)
      obtain r2 w2 where c: "client_chain_length e w1 addr 2.0 = (r2, w2)"
        by (cases "client_chain_length e w1 addr 2.0")
      from client_chain_length_trace[OF c] t1 obtain evs1 where
        t2: "trace w2 = trace w @ evs1" and e2: "\<forall>ev \<in> set evs1. is_RunCmd ev"
        by auto
      show ?thesis
      proof (cases r2)
        case (Inl err)
        with Suc.prems False s r1 c have "w' = w2" by (simp add: Let_def)
        with t2 e2 show ?thesis by blast
      next
        case r2: (Inr cur)
        obtain w3 l3 where
          p: "print_progress_line w2 lpl
                (progress_msg (py_trunc (clock w1 - t0)) (case cur of None \<Rightarrow> ls | Some c \<Rightarrow> c) sl)
              = (w3, l3)"
          by (cases "print_progress_line w2 lpl
                (progress_msg (py_trunc (clock w1 - t0)) (case cur of None \<Rightarrow> ls | Some c \<Rightarrow> c) sl)")
        from print_progress_line_trace[OF p] have t3: "trace w3 = trace w2" .
        from Suc.prems False s r1 c r2 p
        have "progress_loop fuel e w3 t0 dl addr ps sl (case cur of None \<Rightarrow> ls | Some c \<Rightarrow> c) l3
                = Some (r, w')"
          by (simp add: Let_def)
        from Suc.IH[OF this] obtain evs2 where
          t4: "trace w' = trace w3 @ evs2" and e4: "\<forall>ev \<in> set evs2. is_RunCmd ev"
          by blast
        from t4 t3 t2 have "trace w' = trace w @ (evs1 @ evs2)" by simp
        moreover from e2 e4 have "\<forall>ev \<in> set (evs1 @ evs2). is_RunCmd ev" by auto
        ultimately show ?thesis by blast
      qed
    qed
  qed
qed

lemma hold_window_trace:
  "hold_window fuel e w addr ps dur sl = Some (r, w') \<Longrightarrow>
     \<exists>evs. trace w' = trace w @ evs \<and> (\<forall>ev \<in> set evs. is_RunCmd ev)"
proof -
  assume h: "hold_window fuel e w addr ps dur sl = Some (r, w')"
  show ?thesis
  proof (cases "ps \<noteq> 0 \<and> ps > 0 \<and> dur > 0")
    case False
    with h have "sleep e w (real_of_int dur) = (r, w')" by (auto simp: hold_window_def)
    from sleep_trace[OF this] have "trace w' = trace w @ [] \<and> (\<forall>ev \<in> set []. is_RunCmd ev)"
      by simp
    then show ?thesis by blast
  next
    case True
    obtain w1 l1 where p: "print_progress_line w 0 (first_progress_msg sl) = (w1, l1)"
      by (cases "print_progress_line w 0 (first_progress_msg sl)")
    from print_progress_line_trace[OF p] have t1: "trace w1 = trace w" .
    from h True p obtain r2 w2 where
      l: "progress_loop fuel e w1 (clock w) (clock w + real_of_int dur) addr ps sl sl l1
            = Some (r2, w2)"
      and w': "trace w' = trace w2"
      by (auto simp: hold_window_def Let_def write_stdout_def
          split: option.splits sum.splits prod.splits)
    from progress_loop_trace[OF l] t1 w' show ?thesis by simp
  qed
qed

lemma make_deploy_miner_trace:
  "make_deploy_miner e w cnt diff = (r, w') \<Longrightarrow> trace w' = trace w @ [Deploy cnt diff]"
  by (auto simp: make_deploy_miner_def Let_def split: if_splits)

text \<open>
  A run either ends before its deploy with the world unchanged, or its interactions are
  one deploy of its own grid point followed by client calls only.
\<close>

lemma run_experiment_trace:
  "run_experiment fuel e w all_ips cnt diff dur prt warmup_s ready_s poll_s progress_s
     = Some (r, w') \<Longrightarrow>
   ((\<exists>err. r = Inl err) \<and> w' = w) \<or>
   (\<exists>evs. trace w' = trace w @ Deploy cnt diff # evs \<and> (\<forall>ev \<in> set evs. is_RunCmd ev))"
proof -
  assume run: "run_experiment fuel e w all_ips cnt diff dur prt warmup_s ready_s poll_s progress_s
     = Some (r, w')"
  show ?thesis
  proof (cases "cnt > int (length all_ips)")
    case True
    with run show ?thesis by (auto simp: run_experiment_def)
  next
    case small: False
    show ?thesis
    proof (cases "pick_observer_ip (py_slice_to all_ips cnt)")
      case (Inl err)
      with run small show ?thesis by (auto simp: run_experiment_def Let_def)
    next
      case obs: (Inr observer_ip)
      obtain r1 w1 where d: "make_deploy_miner e w cnt diff = (r1, w1)"
        by (cases "make_deploy_miner e w cnt diff")
      from make_deploy_miner_trace[OF d] have t1: "trace w1 = trace w @ Deploy cnt diff # []"
        by simp
      show ?thesis
      proof (cases r1)
        case (Inl err)
        with run small obs d have "w' = w1" by (simp add: run_experiment_def Let_def)
        with t1 show ?thesis by auto
      next
        case r1: (Inr u1)
        obtain r2 w2 where
          s: "(if warmup_s > 0 then sleep e w1 warmup_s else (Inr (), w1)) = (r2, w2)"
          by (cases "if warmup_s > 0 then sleep e w1 warmup_s else (Inr (), w1)")
        then have t2: "trace w2 = trace w @ Deploy cnt diff # []"
          using t1 by (auto split: if_splits dest: sleep_trace)
        show ?thesis
        proof (cases r2)
          case (Inl err)
          with run small obs d r1 s have "w' = w2" by (simp add: run_experiment_def Let_def)
          with t2 show ?thesis by auto
        next
          case r2: (Inr u2)
          show ?thesis
          proof (cases "wait_for_chain_length fuel e w2 observer_ip prt ready_s poll_s")
            case None
            with run small obs d r1 s r2 show ?thesis by (simp add: run_experiment_def Let_def)
          next
            case (Some a3)
            obtain r3 w3 where a3: "a3 = (r3, w3)" by (cases a3)
            from wait_for_chain_length_trace[OF Some[unfolded a3]] t2 obtain evs3 where
              t3: "trace w3 = trace w @ Deploy cnt diff # evs3"
              and e3: "\<forall>ev \<in> set evs3. is_RunCmd ev"
              by auto
            show ?thesis
            proof (cases r3)
              case (Inl err)
              with run small obs d r1 s r2 Some a3 have "w' = w3"
                by (simp add: run_experiment_def Let_def)
              with t3 e3 show ?thesis by blast
            next
              case r3: (Inr start_len)
              show ?thesis
              proof (cases "hold_window fuel e w3 (observer_ip @ '':'' @ py_str prt)
                              progress_s dur start_len")
                case None
                with run small obs d r1 s r2 Some a3 r3 show ?thesis
                  by (simp add: run_experiment_def Let_def)
              next
                case h: (Some a4)
                obtain r4 w4 where a4: "a4 = (r4, w4)" by (cases a4)
                from hold_window_trace[OF h[unfolded a4]] obtain evs4 where
                  t4': "trace w4 = trace w3 @ evs4" and e4': "\<forall>ev \<in> set evs4. is_RunCmd ev"
                  by blast
                from t4' t3 have t4: "trace w4 = trace w @ Deploy cnt diff # (evs3 @ evs4)"
                  by simp
                from e3 e4' have e4: "\<forall>ev \<in> set (evs3 @ evs4). is_RunCmd ev" by auto
                show ?thesis
                proof (cases r4)
                  case (Inl err)
                  with run small obs d r1 s r2 Some a3 r3 h a4 have "w' = w4"
                    by (simp add: run_experiment_def Let_def)
                  with t4 e4 show ?thesis by blast
                next
                  case r4: (Inr u4)
                  show ?thesis
                  proof (cases "wait_for_chain_length fuel e w4 observer_ip prt ready_s poll_s")
                    case None
                    with run small obs d r1 s r2 Some a3 r3 h a4 r4 show ?thesis
                      by (simp add: run_experiment_def Let_def)
                  next
                    case f: (Some a5)
                    obtain r5 w5 where a5: "a5 = (r5, w5)" by (cases a5)
                    from wait_for_chain_length_trace[OF f[unfolded a5]] obtain evs5 where
                      t5': "trace w5 = trace w4 @ evs5"
                      and e5': "\<forall>ev \<in> set evs5. is_RunCmd ev"
                      by blast
                    from t5' t4
                    have t5: "trace w5 = trace w @ Deploy cnt diff # (evs3 @ evs4 @ evs5)"
                      by simp
                    from e4 e5' have e5: "\<forall>ev \<in> set (evs3 @ evs4 @ evs5). is_RunCmd ev"
                      by auto
                    from run small obs d r1 s r2 Some a3 r3 h a4 r4 f a5 have "w' = w5"
                      by (cases r5) (simp_all add: run_experiment_def Let_def)
                    with t5 e5 show ?thesis by blast
                  qed
                qed
              qed
            qed
          qed
        qed
      qed
    qed
  qed
qed

lemma run_experiment_no_stop:
  "run_experiment fuel e w all_ips cnt diff dur prt warmup_s ready_s poll_s progress_s
     = Some (r, w') \<Longrightarrow>
   \<exists>evs. trace w' = trace w @ evs \<and> StopMiner \<notin> set evs"
proof -
  assume "run_experiment fuel e w all_ips cnt diff dur prt warmup_s ready_s poll_s progress_s
     = Some (r, w')"
  from run_experiment_trace[OF this] show ?thesis
  proof
    assume "(\<exists>err. r = Inl err) \<and> w' = w"
    then have "trace w' = trace w @ [] \<and> StopMiner \<notin> set []" by simp
    then show ?thesis by blast
  next
    assume "\<exists>evs. trace w' = trace w @ Deploy cnt diff # evs \<and> (\<forall>ev \<in> set evs. is_RunCmd ev)"
    then obtain evs where t: "trace w' = trace w @ Deploy cnt diff # evs"
      and e: "\<forall>ev \<in> set evs. is_RunCmd ev" by blast
    from e have "StopMiner \<notin> set (Deploy cnt diff # evs)" by (auto simp: is_RunCmd_def)
    with t show ?thesis by blast
  qed
qed

lemma run_experiment_success:
  "run_experiment fuel e w all_ips cnt diff dur prt warmup_s ready_s poll_s progress_s
     = Some (Inr res, w') \<Longrightarrow>
   count res = cnt \<and> difficulty res = diff \<and>
   (\<exists>evs. trace w' = trace w @ Deploy cnt diff # evs \<and> (\<forall>ev \<in> set evs. is_RunCmd ev))"
proof -
  assume run: "run_experiment fuel e w all_ips cnt diff dur prt warmup_s ready_s poll_s progress_s
     = Some (Inr res, w')"
  then have "count res = cnt \<and> difficulty res = diff"
    unfolding run_experiment_def
    by (auto simp: Let_def split: if_splits sum.splits prod.splits option.splits)
  with run_experiment_trace[OF run] show ?thesis by simp
qed


section \<open>The grid loops\<close>

lemma deploy_keys_append: "deploy_keys (xs @ ys) = deploy_keys xs @ deploy_keys ys"
  by (induction xs rule: deploy_keys.induct) simp_all

lemma deploy_keys_RunCmd: "\<forall>ev \<in> set evs. is_RunCmd ev \<Longrightarrow> deploy_keys evs = []"
  by (induction evs rule: deploy_keys.induct) (simp_all add: is_RunCmd_def)

lemma run_counts_append:
  "run_counts fuel e w all_ips a diff (cs1 @ cs2) rs =
     (case run_counts fuel e w all_ips a diff cs1 rs of
        None \<Rightarrow> None
      | Some (Inl err, w1) \<Rightarrow> Some (Inl err, w1)
      | Some (Inr rs1, w1) \<Rightarrow> run_counts fuel e w1 all_ips a diff cs2 rs1)"
  by (induction cs1 arbitrary: w rs) (simp_all split: option.splits prod.splits sum.splits)

lemma run_diffs_append:
  "run_diffs fuel e w all_ips a (ds1 @ ds2) counts rs =
     (case run_diffs fuel e w all_ips a ds1 counts rs of
        None \<Rightarrow> None
      | Some (Inl err, w1) \<Rightarrow> Some (Inl err, w1)
      | Some (Inr rs1, w1) \<Rightarrow> run_diffs fuel e w1 all_ips a ds2 counts rs1)"
  by (induction ds1 arbitrary: w rs) (simp_all split: option.splits prod.splits sum.splits)

text \<open>
  A run that raises at some grid point ends the sweep there: the error is the result of
  the sweep, and the only interaction after the failed run is the final stop.
\<close>

lemma sweep_abort:
  "run_diffs fuel e w all_ips a ds1 (cs1 @ c # cs2) [] = Some (Inr rs1, w1) \<Longrightarrow>
   run_counts fuel e w1 all_ips a d cs1 rs1 = Some (Inr rs2, w2) \<Longrightarrow>
   run_experiment fuel e w2 all_ips c d (duration a) (port a) (warmup a)
       (ready_timeout a) (poll_interval a) (progress_interval a) = Some (Inl err, w3) \<Longrightarrow>
   sweep fuel e w all_ips a (ds1 @ d # ds2) (cs1 @ c # cs2) = Some (Inl err, make_stop_miner w3)"
  by (simp add: sweep_def run_diffs_append run_counts_append)

lemma run_counts_no_stop:
  "\<not> stop_between a \<Longrightarrow> run_counts fuel e w all_ips a diff cs rs = Some (r, w') \<Longrightarrow>
     \<exists>evs. trace w' = trace w @ evs \<and> StopMiner \<notin> set evs"
proof (induction cs arbitrary: w rs)
  case Nil
  then have "trace w' = trace w @ [] \<and> StopMiner \<notin> set []" by simp
  then show ?case by blast
next
  case (Cons c cs)
  show ?case
  proof (cases "run_experiment fuel e w all_ips c diff (duration a) (port a) (warmup a)
             (ready_timeout a) (poll_interval a) (progress_interval a)")
    case None
    with Cons.prems show ?thesis by simp
  next
    case (Some x)
    obtain r1 w1 where x: "x = (r1, w1)" by (cases x)
    from run_experiment_no_stop[OF Some[unfolded x]] obtain evs1 where
      t1: "trace w1 = trace w @ evs1" and e1: "StopMiner \<notin> set evs1" by blast
    show ?thesis
    proof (cases r1)
      case (Inl err)
      with Cons.prems Some x have "w' = w1" by simp
      with t1 e1 show ?thesis by blast
    next
      case (Inr res)
      with Cons.prems Some x
      have "run_counts fuel e w1 all_ips a diff cs (rs @ [res]) = Some (r, w')" by simp
      from Cons.IH[OF Cons.prems(1) this] obtain evs2 where
        t2: "trace w' = trace w1 @ evs2" and e2: "StopMiner \<notin> set evs2" by blast
      from t1 t2 have "trace w' = trace w @ (evs1 @ evs2)" by simp
      moreover from e1 e2 have "StopMiner \<notin> set (evs1 @ evs2)" by simp
      ultimately show ?thesis by blast
    qed
  qed
qed

lemma run_diffs_no_stop:
  "\<not> stop_between a \<Longrightarrow> run_diffs fuel e w all_ips a ds counts rs = Some (r, w') \<Longrightarrow>
     \<exists>evs. trace w' = trace w @ evs \<and> StopMiner \<notin> set evs"
proof (induction ds arbitrary: w rs)
  case Nil
  then have "trace w' = trace w @ [] \<and> StopMiner \<notin> set []" by simp
  then show ?case by blast
next
  case (Cons d ds)
  show ?case
  proof (cases "run_counts fuel e w all_ips a d counts rs")
    case None
    with Cons.prems show ?thesis by simp
  next
    case (Some x)
    obtain r1 w1 where x: "x = (r1, w1)" by (cases x)
    from run_counts_no_stop[OF Cons.prems(1) Some[unfolded x]] obtain evs1 where
      t1: "trace w1 = trace w @ evs1" and e1: "StopMiner \<notin> set evs1" by blast
    show ?thesis
    proof (cases r1)
      case (Inl err)
      with Cons.prems Some x have "w' = w1" by simp
      with t1 e1 show ?thesis by blast
    next
      case (Inr rs1)
      with Cons.prems Some x
      have "run_diffs fuel e w1 all_ips a ds counts rs1 = Some (r, w')" by simp
      from Cons.IH[OF Cons.prems(1) this] obtain evs2 where
        t2: "trace w' = trace w1 @ evs2" and e2: "StopMiner \<notin> set evs2" by blast
      from t1 t2 have "trace w' = trace w @ (evs1 @ evs2)" by simp
      moreover from e1 e2 have "StopMiner \<notin> set (evs1 @ evs2)" by simp
      ultimately show ?thesis by blast
    qed
  qed
qed

lemma run_counts_keys:
  "run_counts fuel e w all_ips a diff cs rs = Some (Inr rs', w') \<Longrightarrow>
     map grid_key rs' = map grid_key rs @ map (Pair diff) cs \<and>
     deploy_keys (trace w') = deploy_keys (trace w) @ map (Pair diff) cs"
proof (induction cs arbitrary: w rs)
  case Nil
  then show ?case by simp
next
  case (Cons c cs)
  show ?case
  proof (cases "run_experiment fuel e w all_ips c diff (duration a) (port a) (warmup a)
             (ready_timeout a) (poll_interval a) (progress_interval a)")
    case None
    with Cons.prems show ?thesis by simp
  next
    case (Some x)
    obtain r1 w1 where x: "x = (r1, w1)" by (cases x)
    show ?thesis
    proof (cases r1)
      case (Inl err)
      with Cons.prems Some x show ?thesis by simp
    next
      case (Inr res)
      from run_experiment_success[OF Some[unfolded x Inr]] obtain evs where
        k: "grid_key res = (diff, c)" and
        t1: "trace w1 = trace w @ Deploy c diff # evs" and
        e1: "\<forall>ev \<in> set evs. is_RunCmd ev"
        by (auto simp: grid_key_def)
      from t1 deploy_keys_RunCmd[OF e1]
      have d1: "deploy_keys (trace w1) = deploy_keys (trace w) @ [(diff, c)]"
        by (simp add: deploy_keys_append)
      define w2 where "w2 = (if stop_between a then make_stop_miner w1 else w1)"
      from d1 have d2: "deploy_keys (trace w2) = deploy_keys (trace w) @ [(diff, c)]"
        by (simp add: w2_def make_stop_miner_def deploy_keys_append)
      from Cons.prems Some x Inr
      have "run_counts fuel e w2 all_ips a diff cs (rs @ [res]) = Some (Inr rs', w')"
        by (simp add: w2_def)
      from Cons.IH[OF this] k d2 show ?thesis by simp
    qed
  qed
qed

lemma run_diffs_keys:
  "run_diffs fuel e w all_ips a ds counts rs = Some (Inr rs', w') \<Longrightarrow>
     map grid_key rs' = map grid_key rs @ List.product ds counts \<and>
     deploy_keys (trace w') = deploy_keys (trace w) @ List.product ds counts"
proof (induction ds arbitrary: w rs)
  case Nil
  then show ?case by simp
next
  case (Cons d ds)
  show ?case
  proof (cases "run_counts fuel e w all_ips a d counts rs")
    case None
    with Cons.prems show ?thesis by simp
  next
    case (Some x)
    obtain r1 w1 where x: "x = (r1, w1)" by (cases x)
    show ?thesis
    proof (cases r1)
      case (Inl err)
      with Cons.prems Some x show ?thesis by simp
    next
      case (Inr rs1)
      from run_counts_keys[OF Some[unfolded x Inr]]
      have k1: "map grid_key rs1 = map grid_key rs @ map (Pair d) counts"
        and d1: "deploy_keys (trace w1) = deploy_keys (trace w) @ map (Pair d) counts"
        by simp_all
      from Cons.prems Some x Inr
      have "run_diffs fuel e w1 all_ips a ds counts rs1 = Some (Inr rs', w')" by simp
      from Cons.IH[OF this] k1 d1 show ?thesis by simp
    qed
  qed
qed


section \<open>Properties of the counter oracle and the per-call timeout\<close>

text \<open>
  C4 does not hold of the code. The poller computes \<open>max(0.5, min(2.0, remaining))\<close>, the
  remaining time clipped to the range from 0.5 to 2 seconds, but \<open>run_cmd\<close> then applies
  \<open>max(1, int(timeout_sec))\<close> to it. So every client call of a poller is run with a
  timeout of 1 second when less than 2 seconds remain and of 2 seconds otherwise, where
  the remaining time is taken at the second clock reading of the round. That timeout is
  within 0.5 and 2 seconds, but it is the clipped remaining time only when at least 2
  seconds or exactly 1 second remain, and it exceeds the remaining time whenever less
  than 1 second remains.
\<close>

theorem poller_applied_timeout:
  "wait_for_chain_length fuel e w miner_ip prt timeout_sec poll = Some (r, w') \<Longrightarrow>
     \<exists>evs. trace w' = trace w @ evs \<and>
       (\<forall>ev \<in> set evs. \<exists>args t s. ev = RunCmd args t s
          \<and> t = applied_timeout (clock w + timeout_sec - s)
          \<and> t = (if 2 \<le> clock w + timeout_sec - s then 2 else 1)
          \<and> 1 / 2 \<le> real_of_int t \<and> real_of_int t \<le> 2
          \<and> (clock w + timeout_sec - s < 1 \<longrightarrow> clock w + timeout_sec - s < real_of_int t)
          \<and> (real_of_int t = per_call_timeout (clock w + timeout_sec - s)
                \<longleftrightarrow> 2 \<le> clock w + timeout_sec - s \<or> clock w + timeout_sec - s = 1))"
proof -
  assume "wait_for_chain_length fuel e w miner_ip prt timeout_sec poll = Some (r, w')"
  then have "wait_loop fuel e w (clock w + timeout_sec) (miner_ip @ '':'' @ py_str prt) poll
      = Some (r, w')"
    by (simp add: wait_for_chain_length_def Let_def)
  from wait_loop_events[OF this] obtain evs where
    tr: "trace w' = trace w @ evs" and
    ev: "\<forall>ev \<in> set evs. \<exists>args s.
           ev = RunCmd args (applied_timeout (clock w + timeout_sec - s)) s"
    by blast
  have "\<forall>ev \<in> set evs. \<exists>args t s. ev = RunCmd args t s
          \<and> t = applied_timeout (clock w + timeout_sec - s)
          \<and> t = (if 2 \<le> clock w + timeout_sec - s then 2 else 1)
          \<and> 1 / 2 \<le> real_of_int t \<and> real_of_int t \<le> 2
          \<and> (clock w + timeout_sec - s < 1 \<longrightarrow> clock w + timeout_sec - s < real_of_int t)
          \<and> (real_of_int t = per_call_timeout (clock w + timeout_sec - s)
                \<longleftrightarrow> 2 \<le> clock w + timeout_sec - s \<or> clock w + timeout_sec - s = 1)"
  proof
    fix ev assume "ev \<in> set evs"
    with ev obtain args s where
      e1: "ev = RunCmd args (applied_timeout (clock w + timeout_sec - s)) s"
      by blast
    show "\<exists>args t s. ev = RunCmd args t s
          \<and> t = applied_timeout (clock w + timeout_sec - s)
          \<and> t = (if 2 \<le> clock w + timeout_sec - s then 2 else 1)
          \<and> 1 / 2 \<le> real_of_int t \<and> real_of_int t \<le> 2
          \<and> (clock w + timeout_sec - s < 1 \<longrightarrow> clock w + timeout_sec - s < real_of_int t)
          \<and> (real_of_int t = per_call_timeout (clock w + timeout_sec - s)
                \<longleftrightarrow> 2 \<le> clock w + timeout_sec - s \<or> clock w + timeout_sec - s = 1)"
      using e1 applied_timeout_clamp[of "clock w + timeout_sec - s"]
      by (simp add: applied_timeout_cases)
  qed
  with tr show ?thesis by blast
qed

theorem poller_applied_timeout_witness:
  "wait_for_chain_length (Suc (Suc (Suc 0))) slow_env w0 ''10.0.0.1'' 8001 (5 / 2) 1
     = Some (Inr 7, w0\<lparr>clock := 23 / 10,
                        trace := [RunCmd client_args 2 0, RunCmd client_args 1 (11 / 10),
                                  RunCmd client_args 1 (11 / 5)],
                        n_client := 3, n_sleep := 2\<rparr>)
   \<and> (\<exists>evs. trace (w0\<lparr>clock := 23 / 10,
                        trace := [RunCmd client_args 2 0, RunCmd client_args 1 (11 / 10),
                                  RunCmd client_args 1 (11 / 5)],
                        n_client := 3, n_sleep := 2\<rparr>) = trace w0 @ evs \<and>
       (\<forall>ev \<in> set evs. \<exists>args t s. ev = RunCmd args t s
          \<and> t = applied_timeout (clock w0 + 5 / 2 - s)
          \<and> t = (if 2 \<le> clock w0 + 5 / 2 - s then 2 else 1)
          \<and> 1 / 2 \<le> real_of_int t \<and> real_of_int t \<le> 2
          \<and> (clock w0 + 5 / 2 - s < 1 \<longrightarrow> clock w0 + 5 / 2 - s < real_of_int t)
          \<and> (real_of_int t = per_call_timeout (clock w0 + 5 / 2 - s)
                \<longleftrightarrow> 2 \<le> clock w0 + 5 / 2 - s \<or> clock w0 + 5 / 2 - s = 1)))"
proof -
  have ev: "wait_for_chain_length (Suc (Suc (Suc 0))) slow_env w0 ''10.0.0.1'' 8001 (5 / 2) 1
     = Some (Inr 7, w0\<lparr>clock := 23 / 10,
                        trace := [RunCmd client_args 2 0, RunCmd client_args 1 (11 / 10),
                                  RunCmd client_args 1 (11 / 5)],
                        n_client := 3, n_sleep := 2\<rparr>)"
    by (simp add: model_defs demo_defs)
  from poller_applied_timeout[OF ev] ev show ?thesis by (intro conjI)
qed

text \<open>
  The failing input of C4: a poller entered with 0.7 seconds to its deadline. The timeout
  clipped to the remaining time is 0.7 seconds, and the client is run with a timeout of
  1 second.
\<close>

theorem poller_timeout_not_clipped:
  "trace (snd (the (wait_for_chain_length 1 demo_env w0 ''10.0.0.1'' 8001 (7 / 10) 1)))
     = [RunCmd client_args 1 0]
   \<and> per_call_timeout (7 / 10) = 7 / 10
   \<and> applied_timeout (7 / 10) = 1
   \<and> \<not> real_of_int (applied_timeout (7 / 10)) \<le> 7 / 10"
  by (simp add: model_defs demo_defs applied_timeout_def)

text \<open>
  C5. When the client binary exists, the counter oracle never raises: it returns a value
  or \<open>None\<close>; and every failure of the read (non-zero exit or timeout of the client,
  malformed output, missing or unusable \<open>chain_length\<close>) makes it return \<open>None\<close>.
\<close>

theorem client_chain_length_swallows_failures:
  "client_exists e \<Longrightarrow>
     (\<exists>v. fst (client_chain_length e w miner_addr timeout_sec) = Inr v) \<and>
     (read_fails e (n_client w)
        \<longrightarrow> fst (client_chain_length e w miner_addr timeout_sec) = Inr None)"
  by (simp add: client_chain_length_answer counter_oracle_read_fails)

theorem client_chain_length_swallows_failures_witness:
  "client_exists down_env \<and> read_fails down_env (n_client w0) \<and>
   (\<exists>v. fst (client_chain_length down_env w0 ''10.0.0.1:8001'' 2) = Inr v) \<and>
   fst (client_chain_length down_env w0 ''10.0.0.1:8001'' 2) = Inr None"
proof -
  have h1: "client_exists down_env" by (simp add: demo_defs)
  have h2: "read_fails down_env (n_client w0)" by (simp add: demo_defs read_fails_def)
  from client_chain_length_swallows_failures[OF h1, of w0 "''10.0.0.1:8001''" 2] h1 h2
  show ?thesis by blast
qed


section \<open>Properties of the experiment runner\<close>

text \<open>
  C7. Every RunResult the experiment runner returns has blocks_mined equal to the end
  chain length minus the start chain length, as integers, with no clamping.
\<close>

theorem run_experiment_blocks_mined:
  "run_experiment fuel e w all_ips cnt diff dur prt warmup_s ready_s poll_s progress_s
     = Some (Inr r, w')
   \<Longrightarrow> blocks_mined r = end_chain_length r - start_chain_length r"
  unfolding run_experiment_def
  by (auto simp: Let_def split: if_splits sum.splits prod.splits option.splits)

theorem run_experiment_blocks_mined_witness:
  "(case run_experiment 1 demo_env w0 demo_ips 1 3 0 8001 0 45 1 10 of
      Some (Inr r, w') \<Rightarrow>
        blocks_mined r = end_chain_length r - start_chain_length r
        \<and> start_chain_length r = 7 \<and> end_chain_length r = 5 \<and> blocks_mined r = - 2
    | _ \<Rightarrow> False)"
proof -
  have "\<exists>r w'. run_experiment 1 demo_env w0 demo_ips 1 3 0 8001 0 45 1 10 = Some (Inr r, w')
      \<and> start_chain_length r = 7 \<and> end_chain_length r = 5 \<and> blocks_mined r = - 2"
    by (simp add: model_defs demo_defs)
  then obtain r w' where
    ev: "run_experiment 1 demo_env w0 demo_ips 1 3 0 8001 0 45 1 10 = Some (Inr r, w')"
    and vals: "start_chain_length r = 7" "end_chain_length r = 5" "blocks_mined r = - 2"
    by blast
  from run_experiment_blocks_mined[OF ev] ev vals show ?thesis by simp
qed

text \<open>
  C8. When the previously printed line had length \<open>L\<close> and the new message is shorter, the
  text written after the carriage return has length exactly \<open>L\<close>: the message followed by
  \<open>L - M\<close> spaces. The length remembered for the next call is the length of the padded
  text, so \<open>L\<close> is indeed the length of what was printed before.
\<close>

theorem print_progress_line_pads:
  "length msg < L \<Longrightarrow>
     print_progress_line w L msg = (write_stdout w (CHR 0x0D # pad_line L msg), L)
     \<and> length (pad_line L msg) = L
     \<and> take (length msg) (pad_line L msg) = msg
     \<and> drop (length msg) (pad_line L msg) = replicate (L - length msg) CHR '' ''
     \<and> snd (print_progress_line w0 l prev) = length (pad_line l prev)"
  by (simp add: print_progress_line_def pad_line_def Let_def)

theorem print_progress_line_pads_witness:
  "length ''ab'' < (5::nat)
   \<and> print_progress_line w0 5 ''ab'' = (write_stdout w0 (CHR 0x0D # ''ab   ''), 5)
   \<and> length (pad_line 5 ''ab'') = 5
   \<and> drop (length ''ab'') (pad_line 5 ''ab'') = replicate (5 - length ''ab'') CHR '' ''"
proof -
  have h: "length ''ab'' < (5::nat)" by simp
  have p: "pad_line 5 ''ab'' = ''ab   ''" by (simp add: pad_line_def eval_nat_numeral)
  from print_progress_line_pads[OF h, of w0] h p show ?thesis by simp
qed

text \<open>
  C10. A requested count of 0 with a non-empty pool passes the pool-size check; the slice
  of assigned addresses is empty, so observer selection raises \<open>ValueError\<close>, and the
  runner returns that error with the world unchanged: no deploy was invoked.
\<close>

theorem run_experiment_count_zero:
  "all_ips \<noteq> [] \<Longrightarrow>
     \<not> (0 > int (length all_ips))
     \<and> py_slice_to all_ips 0 = []
     \<and> pick_observer_ip (py_slice_to all_ips 0) = Inl ValueError
     \<and> run_experiment fuel e w all_ips 0 diff dur prt warmup_s ready_s poll_s progress_s
         = Some (Inl ValueError, w)"
  by (simp add: run_experiment_def py_slice_to_def pick_observer_ip_def)

theorem run_experiment_count_zero_witness:
  "demo_ips \<noteq> []
   \<and> run_experiment 1 demo_env w0 demo_ips 0 3 0 8001 0 45 1 10 = Some (Inl ValueError, w0)
   \<and> trace w0 = []"
proof -
  have h: "demo_ips \<noteq> []" by (simp add: demo_defs)
  from run_experiment_count_zero[OF h, of 1 demo_env w0 3 0 8001 0 45 1 10] h
  show ?thesis by (simp add: w0_def)
qed


section \<open>Properties of the deadline poller\<close>











section \<open>Properties of the sweep\<close>

text \<open>
  C1. Without per-point teardown, every way the sweep ends has the stop-cluster command as
  its last interaction and nowhere before it: the trace of the sweep is the trace at its
  start, then interactions none of which is a stop, then exactly one stop. When the run
  at some grid point raises, the points after it are not attempted (nothing but the stop
  follows the failed run) and the sweep raises that same error after the stop.
\<close>

theorem sweep_stops_cluster_once:
  "\<not> stop_between a \<Longrightarrow>
     (sweep fuel e w all_ips a ds counts = Some (r, w') \<longrightarrow>
        (\<exists>evs. trace w' = trace w @ evs @ [StopMiner] \<and> StopMiner \<notin> set evs))
     \<and> (run_diffs fuel e w all_ips a ds1 (cs1 @ c # cs2) [] = Some (Inr rs1, w1)
          \<and> run_counts fuel e w1 all_ips a d cs1 rs1 = Some (Inr rs2, w2)
          \<and> run_experiment fuel e w2 all_ips c d (duration a) (port a) (warmup a)
                (ready_timeout a) (poll_interval a) (progress_interval a) = Some (Inl err, w3)
        \<longrightarrow> sweep fuel e w all_ips a (ds1 @ d # ds2) (cs1 @ c # cs2)
              = Some (Inl err, make_stop_miner w3)
            \<and> trace (make_stop_miner w3) = trace w3 @ [StopMiner])"
proof -
  assume nb: "\<not> stop_between a"
  have "\<exists>evs. trace w' = trace w @ evs @ [StopMiner] \<and> StopMiner \<notin> set evs"
    if s: "sweep fuel e w all_ips a ds counts = Some (r, w')"
  proof -
    from s obtain wl where
      rd: "run_diffs fuel e w all_ips a ds counts [] = Some (r, wl)"
      and w': "w' = make_stop_miner wl"
      by (auto simp: sweep_def split: option.splits prod.splits)
    from run_diffs_no_stop[OF nb rd] obtain evs where
      t: "trace wl = trace w @ evs" and e: "StopMiner \<notin> set evs" by blast
    from t w' have "trace w' = trace w @ evs @ [StopMiner]" by (simp add: make_stop_miner_def)
    with e show ?thesis by blast
  qed
  moreover
  have "sweep fuel e w all_ips a (ds1 @ d # ds2) (cs1 @ c # cs2)
              = Some (Inl err, make_stop_miner w3)
            \<and> trace (make_stop_miner w3) = trace w3 @ [StopMiner]"
    if "run_diffs fuel e w all_ips a ds1 (cs1 @ c # cs2) [] = Some (Inr rs1, w1)"
      and "run_counts fuel e w1 all_ips a d cs1 rs1 = Some (Inr rs2, w2)"
      and "run_experiment fuel e w2 all_ips c d (duration a) (port a) (warmup a)
                (ready_timeout a) (poll_interval a) (progress_interval a) = Some (Inl err, w3)"
    using sweep_abort[OF that] by (simp add: make_stop_miner_def)
  ultimately show ?thesis by blast
qed

theorem sweep_stops_cluster_once_witness:
  "\<not> stop_between demo_args
   \<and> sweep (Suc 0) faulty_env w0 demo_ips demo_args [3, 4] [1, 3]
       = Some (Inl CalledProcessError,
               make_stop_miner
                 (w0\<lparr>clock := 31 / 5,
                     trace := [Deploy 1 3, RunCmd client_args 2 3, RunCmd client_args 2 (31 / 10),
                               Deploy 3 3],
                     n_client := 2, n_deploy := 2, n_sleep := 1\<rparr>))
   \<and> (\<exists>evs. [Deploy 1 3, RunCmd client_args 2 3, RunCmd client_args 2 (31 / 10), Deploy 3 3,
              StopMiner]
            = trace w0 @ evs @ [StopMiner] \<and> StopMiner \<notin> set evs)"
proof -
  have nb: "\<not> stop_between demo_args" by (simp add: demo_defs)
  have p1: "run_diffs (Suc 0) faulty_env w0 demo_ips demo_args [] ([1] @ 3 # []) []
              = Some (Inr [], w0)"
    by simp
  have "\<exists>rs2 w2. run_counts (Suc 0) faulty_env w0 demo_ips demo_args 3 [1] [] = Some (Inr rs2, w2)
      \<and> run_experiment (Suc 0) faulty_env w2 demo_ips 3 3 (duration demo_args) (port demo_args)
          (warmup demo_args) (ready_timeout demo_args) (poll_interval demo_args)
          (progress_interval demo_args)
        = Some (Inl CalledProcessError,
                w0\<lparr>clock := 31 / 5,
                   trace := [Deploy 1 3, RunCmd client_args 2 3, RunCmd client_args 2 (31 / 10),
                             Deploy 3 3],
                   n_client := 2, n_deploy := 2, n_sleep := 1\<rparr>)"
    by (simp add: model_defs demo_defs)
  then obtain rs2 w2 where
    p2: "run_counts (Suc 0) faulty_env w0 demo_ips demo_args 3 [1] [] = Some (Inr rs2, w2)"
    and p3: "run_experiment (Suc 0) faulty_env w2 demo_ips 3 3 (duration demo_args)
          (port demo_args) (warmup demo_args) (ready_timeout demo_args) (poll_interval demo_args)
          (progress_interval demo_args)
        = Some (Inl CalledProcessError,
                w0\<lparr>clock := 31 / 5,
                   trace := [Deploy 1 3, RunCmd client_args 2 3, RunCmd client_args 2 (31 / 10),
                             Deploy 3 3],
                   n_client := 2, n_deploy := 2, n_sleep := 1\<rparr>)"
    by blast
  note th = sweep_stops_cluster_once[OF nb, where fuel = "Suc 0" and e = faulty_env and w = w0
      and all_ips = demo_ips and ?ds1.0 = "[]" and ?cs1.0 = "[1]" and c = 3 and ?cs2.0 = "[]"
      and ?rs1.0 = "[]" and ?w1.0 = w0 and d = 3 and ?rs2.0 = rs2 and ?w2.0 = w2
      and err = CalledProcessError and ?ds2.0 = "[4]"
      and ds = "[3, 4]" and counts = "[1, 3]" and r = "Inl CalledProcessError"]
  from th p1 p2 p3
  have sw: "sweep (Suc 0) faulty_env w0 demo_ips demo_args [3, 4] [1, 3]
       = Some (Inl CalledProcessError,
               make_stop_miner
                 (w0\<lparr>clock := 31 / 5,
                     trace := [Deploy 1 3, RunCmd client_args 2 3, RunCmd client_args 2 (31 / 10),
                               Deploy 3 3],
                     n_client := 2, n_deploy := 2, n_sleep := 1\<rparr>))"
    by simp
  from th sw
  have "\<exists>evs. trace (make_stop_miner
                 (w0\<lparr>clock := 31 / 5,
                     trace := [Deploy 1 3, RunCmd client_args 2 3, RunCmd client_args 2 (31 / 10),
                               Deploy 3 3],
                     n_client := 2, n_deploy := 2, n_sleep := 1\<rparr>))
            = trace w0 @ evs @ [StopMiner] \<and> StopMiner \<notin> set evs"
    by blast
  then have "\<exists>evs. [Deploy 1 3, RunCmd client_args 2 3, RunCmd client_args 2 (31 / 10), Deploy 3 3,
              StopMiner]
            = trace w0 @ evs @ [StopMiner] \<and> StopMiner \<notin> set evs"
    by (simp add: make_stop_miner_def)
  with nb sw show ?thesis by blast
qed

text \<open>
  C3. A sweep that completes has run the grid points with the difficulty as the outer
  loop and the count as the inner loop, both in list order: the deploys made during the
  sweep are those of the pairs of \<open>List.product ds counts\<close> in that order, and the results
  are one per point in the same order. For counts 1, 3 and difficulties 3, 4 these are
  the four results with keys (3,1), (3,3), (4,1), (4,3).
\<close>

theorem sweep_grid_order:
  "sweep fuel e w all_ips a ds counts = Some (Inr rs, w') \<Longrightarrow>
     map grid_key rs = List.product ds counts
     \<and> length rs = length ds * length counts
     \<and> deploy_keys (trace w') = deploy_keys (trace w) @ List.product ds counts
     \<and> (ds = [3, 4] \<and> counts = [1, 3]
          \<longrightarrow> map grid_key rs = [(3, 1), (3, 3), (4, 1), (4, 3)] \<and> length rs = 4)"
proof -
  assume s: "sweep fuel e w all_ips a ds counts = Some (Inr rs, w')"
  then obtain wl where
    rd: "run_diffs fuel e w all_ips a ds counts [] = Some (Inr rs, wl)"
    and w': "w' = make_stop_miner wl"
    by (auto simp: sweep_def split: option.splits prod.splits)
  from run_diffs_keys[OF rd]
  have k: "map grid_key rs = List.product ds counts"
    and d: "deploy_keys (trace wl) = deploy_keys (trace w) @ List.product ds counts"
    by simp_all
  from k have "length (map grid_key rs) = length (List.product ds counts)" by simp
  then have l: "length rs = length ds * length counts" by simp
  from d w' have d': "deploy_keys (trace w') = deploy_keys (trace w) @ List.product ds counts"
    by (simp add: make_stop_miner_def deploy_keys_append)
  from k l have "ds = [3, 4] \<and> counts = [1, 3]
          \<longrightarrow> map grid_key rs = [(3, 1), (3, 3), (4, 1), (4, 3)] \<and> length rs = 4"
    by auto
  with k l d' show ?thesis by blast
qed

theorem sweep_grid_order_witness:
  "\<exists>rs w'. sweep (Suc 0) demo_env w0 demo_ips demo_args [3, 4] [1, 3] = Some (Inr rs, w')
     \<and> map grid_key rs = [(3, 1), (3, 3), (4, 1), (4, 3)] \<and> length rs = 4
     \<and> deploy_keys (trace w') = [(3, 1), (3, 3), (4, 1), (4, 3)]"
proof -
  have "\<exists>rs w'. sweep (Suc 0) demo_env w0 demo_ips demo_args [3, 4] [1, 3] = Some (Inr rs, w')"
    by (simp add: model_defs demo_defs)
  then obtain rs w' where
    ev: "sweep (Suc 0) demo_env w0 demo_ips demo_args [3, 4] [1, 3] = Some (Inr rs, w')"
    by blast
  from sweep_grid_order[OF ev]
  have "map grid_key rs = [(3, 1), (3, 3), (4, 1), (4, 3)] \<and> length rs = 4
     \<and> deploy_keys (trace w') = [(3, 1), (3, 3), (4, 1), (4, 3)]"
    by (simp add: w0_def)
  with ev show ?thesis by simp
qed

text \<open>
  C6, as the code has it. The pool-size check is made by the experiment runner, once per
  grid point, when that point is reached. The run of a point whose count exceeds the pool
  raises \<open>ValueError\<close> with the world unchanged: no deploy and no counter read of that
  run. A sweep whose first point exceeds the pool makes no interaction but the final stop;
  at a later point the sweep aborts with \<open>ValueError\<close> after the earlier points have
  been deployed and measured, and the final stop follows.
\<close>

theorem run_experiment_count_exceeds_pool:
  "int (length all_ips) < cnt \<Longrightarrow>
     run_experiment fuel e w all_ips cnt diff dur prt warmup_s ready_s poll_s progress_s
       = Some (Inl ValueError, w)
     \<and> sweep fuel e w all_ips a (diff # ds2) (cnt # cs2) = Some (Inl ValueError, make_stop_miner w)
     \<and> (run_diffs fuel e w all_ips a ds1 (cs1 @ cnt # cs2) [] = Some (Inr rs1, w1)
          \<and> run_counts fuel e w1 all_ips a diff cs1 rs1 = Some (Inr rs2, w2)
        \<longrightarrow> sweep fuel e w all_ips a (ds1 @ diff # ds2) (cs1 @ cnt # cs2)
              = Some (Inl ValueError, make_stop_miner w2))"
proof -
  assume big: "int (length all_ips) < cnt"
  then have run: "\<And>fuel w dur prt warmup_s ready_s poll_s progress_s.
      run_experiment fuel e w all_ips cnt diff dur prt warmup_s ready_s poll_s progress_s
       = Some (Inl ValueError, w)"
    by (simp add: run_experiment_def)
  have first: "sweep fuel e w all_ips a (diff # ds2) (cnt # cs2)
      = Some (Inl ValueError, make_stop_miner w)"
    by (simp add: sweep_def run)
  have later: "sweep fuel e w all_ips a (ds1 @ diff # ds2) (cs1 @ cnt # cs2)
              = Some (Inl ValueError, make_stop_miner w2)"
    if "run_diffs fuel e w all_ips a ds1 (cs1 @ cnt # cs2) [] = Some (Inr rs1, w1)"
      and "run_counts fuel e w1 all_ips a diff cs1 rs1 = Some (Inr rs2, w2)"
    using sweep_abort[OF that run] .
  from run first later show ?thesis by blast
qed

theorem run_experiment_count_exceeds_pool_witness:
  "int (length demo_ips) < 5
   \<and> run_experiment (Suc 0) demo_env w0 demo_ips 5 3 0 8001 0 45 1 10 = Some (Inl ValueError, w0)
   \<and> sweep (Suc 0) demo_env w0 demo_ips demo_args [3] [5] = Some (Inl ValueError, make_stop_miner w0)
   \<and> sweep (Suc 0) demo_env w0 demo_ips demo_args [3] [1, 5]
       = Some (Inl ValueError,
               make_stop_miner
                 (w0\<lparr>clock := 16 / 5,
                     trace := [Deploy 1 3, RunCmd client_args 2 3, RunCmd client_args 2 (31 / 10)],
                     n_client := 2, n_deploy := 1, n_sleep := 1\<rparr>))"
proof -
  have big: "int (length demo_ips) < 5" by (simp add: demo_defs)
  have p1: "run_diffs (Suc 0) demo_env w0 demo_ips demo_args [] ([1] @ 5 # []) []
              = Some (Inr [], w0)"
    by simp
  have "\<exists>rs2. run_counts (Suc 0) demo_env w0 demo_ips demo_args 3 [1] []
      = Some (Inr rs2,
              w0\<lparr>clock := 16 / 5,
                 trace := [Deploy 1 3, RunCmd client_args 2 3, RunCmd client_args 2 (31 / 10)],
                 n_client := 2, n_deploy := 1, n_sleep := 1\<rparr>)"
    by (simp add: model_defs demo_defs)
  then obtain rs2 where
    p2: "run_counts (Suc 0) demo_env w0 demo_ips demo_args 3 [1] []
      = Some (Inr rs2,
              w0\<lparr>clock := 16 / 5,
                 trace := [Deploy 1 3, RunCmd client_args 2 3, RunCmd client_args 2 (31 / 10)],
                 n_client := 2, n_deploy := 1, n_sleep := 1\<rparr>)"
    by blast
  note a = run_experiment_count_exceeds_pool[OF big, where fuel = "Suc 0" and e = demo_env
      and w = w0 and diff = 3 and dur = 0 and prt = 8001 and warmup_s = 0 and ready_s = 45
      and poll_s = 1 and progress_s = 10 and a = demo_args and ?ds2.0 = "[]" and ?cs2.0 = "[]"
      and ?ds1.0 = "[]" and ?cs1.0 = "[]" and ?rs1.0 = "[]" and ?w1.0 = w0]
  note b = run_experiment_count_exceeds_pool[OF big, where fuel = "Suc 0" and e = demo_env
      and w = w0 and diff = 3 and a = demo_args and ?ds2.0 = "[]" and ?cs2.0 = "[]"
      and ?ds1.0 = "[]" and ?cs1.0 = "[1]" and ?rs1.0 = "[]" and ?w1.0 = w0 and ?rs2.0 = rs2
      and ?w2.0 = "w0\<lparr>clock := 16 / 5,
                 trace := [Deploy 1 3, RunCmd client_args 2 3, RunCmd client_args 2 (31 / 10)],
                 n_client := 2, n_deploy := 1, n_sleep := 1\<rparr>"]
  from a have a1: "run_experiment (Suc 0) demo_env w0 demo_ips 5 3 0 8001 0 45 1 10
      = Some (Inl ValueError, w0)"
    and a2: "sweep (Suc 0) demo_env w0 demo_ips demo_args [3] [5]
      = Some (Inl ValueError, make_stop_miner w0)"
    by simp_all
  from b p1 p2 have b3: "sweep (Suc 0) demo_env w0 demo_ips demo_args [3] [1, 5]
       = Some (Inl ValueError,
               make_stop_miner
                 (w0\<lparr>clock := 16 / 5,
                     trace := [Deploy 1 3, RunCmd client_args 2 3, RunCmd client_args 2 (31 / 10)],
                     n_client := 2, n_deploy := 1, n_sleep := 1\<rparr>))"
    by simp
  from big a1 a2 b3 show ?thesis by blast
qed

text \<open>
  C6 as stated fails: with a pool of three addresses and the counts 1 and 5, the sweep
  deploys the first point and reads its counter twice before the run of the second point
  raises \<open>ValueError\<close>, and the stop-cluster command is run after that.
\<close>

theorem sweep_count_exceeds_pool_after_deploy:
  "int (length demo_ips) < 5
   \<and> sweep (Suc 0) demo_env w0 demo_ips demo_args [3] [1, 5]
       = Some (Inl ValueError,
               w0\<lparr>clock := 16 / 5,
                  trace := [Deploy 1 3, RunCmd client_args 2 3, RunCmd client_args 2 (31 / 10),
                            StopMiner],
                  n_client := 2, n_deploy := 1, n_sleep := 1\<rparr>)"
  by (simp add: model_defs demo_defs)


section \<open>Properties of the chart renderer\<close>

lemma fold_lookup_None:
  "fold (\<lambda>r m. m((difficulty r, count r) \<mapsto> blocks_mined r)) results m k = None
     \<longleftrightarrow> m k = None \<and> k \<notin> set (map grid_key results)"
  by (induction results arbitrary: m) (auto simp: grid_key_def)

lemma build_lookup_absent:
  "k \<notin> set (map grid_key results) \<Longrightarrow> build_lookup results k = None"
  by (simp add: build_lookup_def fold_lookup_None)

text \<open>
  C9. For a count at position \<open>i\<close> and a difficulty at position \<open>j\<close> of the lists given to
  the renderer whose pair is the key of no result, the chart is drawn, and the bar of
  that pair (the \<open>j\<close>-th bar of the \<open>i\<close>-th group) has height 0 and carries the text
  \<open>0\<close>, placed at height 0.8, which is positive.
\<close>

theorem plot_grouped_bars_absent_pair:
  "i < length counts \<Longrightarrow> j < length difficulties \<Longrightarrow>
   (difficulties ! j, counts ! i) \<notin> set (map grid_key results) \<Longrightarrow>
   \<exists>bss. plot_grouped_bars results counts difficulties = Inr bss
     \<and> length bss = length counts
     \<and> length (bss ! i) = length difficulties
     \<and> bar_height (bss ! i ! j) = 0
     \<and> text_s (bss ! i ! j) = ''0''
     \<and> text_y (bss ! i ! j) = 0.8
     \<and> 0 < text_y (bss ! i ! j)"
proof -
  assume i: "i < length counts" and j: "j < length difficulties"
    and absent: "(difficulties ! j, counts ! i) \<notin> set (map grid_key results)"
  from i have ne: "length counts \<noteq> 0" by auto
  from build_lookup_absent[OF absent]
  have lk: "build_lookup results (difficulties ! j, counts ! i) = None" .
  have zero: "py_str 0 = ''0''" by (simp add: py_str_def str_nat.simps)
  show ?thesis
    unfolding plot_grouped_bars_def Let_def
    using i j ne lk zero by (simp add: nth_enumerate_eq)
qed

theorem plot_grouped_bars_absent_pair_witness:
  "(1::nat) < length [1::int, 3] \<and> (0::nat) < length [3::int, 4]
   \<and> ([3, 4] ! 0, [1, 3] ! 1) \<notin> set (map grid_key [demo_result])
   \<and> (\<exists>bss. plot_grouped_bars [demo_result] [1, 3] [3, 4] = Inr bss
        \<and> bar_height (bss ! 1 ! 0) = 0
        \<and> text_s (bss ! 1 ! 0) = ''0''
        \<and> text_y (bss ! 1 ! 0) = 0.8)"
proof -
  have h1: "(1::nat) < length [1::int, 3]" by simp
  have h2: "(0::nat) < length [3::int, 4]" by simp
  have h3: "([3, 4] ! 0, [1, 3] ! 1) \<notin> set (map grid_key [demo_result])"
    by (simp add: grid_key_def demo_result_def)
  from plot_grouped_bars_absent_pair[OF h1 h2 h3] h1 h2 h3 show ?thesis by blast
qed


end
